theory Spec2Isabelle
  imports Main
begin

section \<open>The numeric functions of \<^verbatim>\<open>test_python.py\<close>\<close>

text \<open>
  The script \<^verbatim>\<open>features/algorithms-python/test_python.py\<close> defines two functions on
  Python integers, \<^verbatim>\<open>fibonacci\<close> and \<^verbatim>\<open>is_prime\<close>, a test runner
  \<^verbatim>\<open>run_tests\<close> over a table of triples, and an entry point that turns the runner's
  result into the exit status of the process. Python integers are unbounded and are
  modelled by \<open>int\<close>.
\<close>

subsection \<open>fibonacci\<close>

text \<open>
  \<^verbatim>\<open>fibonacci(n)\<close> returns 0 when \<^verbatim>\<open>n <= 0\<close>, 1 when \<^verbatim>\<open>n == 1\<close>, and otherwise the
  sum of the two recursive calls at \<^verbatim>\<open>n-1\<close> and \<^verbatim>\<open>n-2\<close>. The recursion is on an
  integer, so it is not structural: its termination is proved with the measure
  \<open>nat n\<close>.
\<close>

function fibonacci :: "int \<Rightarrow> int" where
  "fibonacci n =
     (if n \<le> 0 then 0
      else if n = 1 then 1
      else fibonacci (n - 1) + fibonacci (n - 2))"
  by pat_completeness auto
termination
  by (relation "measure nat") auto

declare fibonacci.simps [simp del]

text \<open>
  The depth of the call tree of \<^verbatim>\<open>fibonacci(n)\<close>, counted in nested activations: a
  call that returns at once has depth 1, a call that recurses is one deeper than the
  deeper of its two callees. The recursion limit of the interpreter is a setting of the
  run-time and is not modelled; the depth it would be compared with is.
\<close>

function fibonacci_depth :: "int \<Rightarrow> nat" where
  "fibonacci_depth n =
     (if n \<le> 0 then 1
      else if n = 1 then 1
      else Suc (max (fibonacci_depth (n - 1)) (fibonacci_depth (n - 2))))"
  by pat_completeness auto
termination
  by (relation "measure nat") auto

declare fibonacci_depth.simps [simp del]

text \<open>
  The reference sequence, in the words of the specification:
  fib(0)=0, fib(1)=1, fib(k)=fib(k-1)+fib(k-2) for k at least 2.
\<close>

fun fib_ref :: "nat \<Rightarrow> int" where
  "fib_ref 0 = 0"
| "fib_ref (Suc 0) = 1"
| "fib_ref (Suc (Suc k)) = fib_ref (Suc k) + fib_ref k"

subsection \<open>is_prime\<close>

text \<open>
  \<^verbatim>\<open>is_prime(n)\<close> returns \<^verbatim>\<open>False\<close> when \<^verbatim>\<open>n < 2\<close>; otherwise it runs
  \<^verbatim>\<open>for i in range(2, int(n**0.5) + 1)\<close>, returns \<^verbatim>\<open>False\<close> at the first \<open>i\<close> with
  \<^verbatim>\<open>n % i == 0\<close>, and \<^verbatim>\<open>True\<close> when the loop ends.

  The bound \<^verbatim>\<open>int(n**0.5)\<close> is computed in floating point: the exponent is a float, so
  Python converts the integer \<open>n\<close> to a double first. The conversion rounds to nearest,
  ties to even, and raises \<^verbatim>\<open>OverflowError\<close> when the rounded value is not a finite
  double, which is the case exactly from \<open>2^1024 - 2^970\<close> on (the midpoint between the
  largest finite double \<open>2^1024 - 2^971\<close> and \<open>2^1024\<close>). Exceptions are values of
  the type \<open>error\<close>, and a function that can raise returns \<open>error + 'a\<close>.
\<close>

datatype error = OverflowError

definition float_overflow_bound :: int where
  "float_overflow_bound = 2 ^ 1024 - 2 ^ 970"

text \<open>
  Below that bound the model takes the square root at its mathematical value, truncated
  toward zero by \<^verbatim>\<open>int\<close>: the greatest \<open>r\<close> with \<open>r * r \<le> n\<close>, found by counting up.
  That is the value Python computes at the arguments of the test table. At arguments of
  more than 52 bits the double arithmetic rounds, and the source does not fix by how
  much; what the loop needs of its bound is therefore stated separately, in
  \<open>trial_division_correct\<close>, for any bound from the integer square root up to \<open>n - 1\<close>.
\<close>

function floor_sqrt_from :: "int \<Rightarrow> int \<Rightarrow> int" where
  "floor_sqrt_from r n =
     (if 0 \<le> r \<and> (r + 1) * (r + 1) \<le> n then floor_sqrt_from (r + 1) n else r)"
  by pat_completeness auto
termination
proof (relation "measure (\<lambda>(r, n). nat (n - r))")
  show "wf (measure (\<lambda>(r, n). nat (n - r)))" by simp
next
  fix r n :: int
  assume a: "0 \<le> r \<and> (r + 1) * (r + 1) \<le> n"
  have "r + 1 \<le> (r + 1) * (r + 1)"
    using a by (simp add: mult_le_cancel_left1)
  then have "r < n" using a by linarith
  then show "((r + 1, n), (r, n)) \<in> measure (\<lambda>(r, n). nat (n - r))" by simp
qed

declare floor_sqrt_from.simps [simp del]

definition floor_sqrt :: "int \<Rightarrow> int" where
  "floor_sqrt n = floor_sqrt_from 0 n"

definition int_pow_half :: "int \<Rightarrow> error + int" where
  "int_pow_half n =
     (if float_overflow_bound \<le> n then Inl OverflowError else Inr (floor_sqrt n))"

text \<open>\<^verbatim>\<open>range(a, b)\<close> on integers: \<open>a, a+1, ..., b-1\<close>, empty when \<open>b \<le> a\<close>.\<close>

definition range_py :: "int \<Rightarrow> int \<Rightarrow> int list" where
  "range_py a b = [a..b - 1]"

text \<open>
  The body of the loop. Every \<open>i\<close> of the range is at least 2, where Python's \<^verbatim>\<open>%\<close>
  and \<open>mod\<close> on \<open>int\<close> agree (both take the sign of the divisor).
\<close>

primrec for_no_divisor :: "int \<Rightarrow> int list \<Rightarrow> bool" where
  "for_no_divisor n [] = True"
| "for_no_divisor n (i # rest) = (if n mod i = 0 then False else for_no_divisor n rest)"

definition is_prime :: "int \<Rightarrow> error + bool" where
  "is_prime n =
     (if n < 2 then Inr False
      else case int_pow_half n of
             Inl e \<Rightarrow> Inl e
           | Inr r \<Rightarrow> Inr (for_no_divisor n (range_py 2 (r + 1))))"

text \<open>
  Primality as the specification words it (at least 2 and no divisor from 2 up to the
  integer square root), and as it is usually defined.
\<close>

definition prime_spec :: "int \<Rightarrow> bool" where
  "prime_spec n \<longleftrightarrow> 2 \<le> n \<and> (\<forall>d. 2 \<le> d \<and> d * d \<le> n \<longrightarrow> \<not> d dvd n)"

definition prime_int :: "int \<Rightarrow> bool" where
  "prime_int n \<longleftrightarrow> 2 \<le> n \<and> (\<forall>d. 0 < d \<and> d dvd n \<longrightarrow> d = 1 \<or> d = n)"

section \<open>The test runner\<close>

subsection \<open>Values, equality and formatting\<close>

text \<open>
  The first two components of a test case are Python integers or booleans. Python's
  \<^verbatim>\<open>==\<close> compares them by numeric value, a boolean counting as 0 or 1, so
  \<^verbatim>\<open>1 == True\<close> holds.
\<close>

datatype val = IntV int | BoolV bool

fun num_of :: "val \<Rightarrow> int" where
  "num_of (IntV i) = i"
| "num_of (BoolV b) = (if b then 1 else 0)"

definition py_eq :: "val \<Rightarrow> val \<Rightarrow> bool" where
  "py_eq a b \<longleftrightarrow> num_of a = num_of b"

text \<open>The decimal text of an integer, as \<^verbatim>\<open>str\<close> and an f-string produce it.\<close>

definition digit_char :: "nat \<Rightarrow> char" where
  "digit_char d = ''0123456789'' ! d"

function str_nat :: "nat \<Rightarrow> string" where
  "str_nat n = (if n < 10 then [digit_char n] else str_nat (n div 10) @ [digit_char (n mod 10)])"
  by pat_completeness auto
termination
  by (relation "measure id") auto

declare str_nat.simps [simp del]

definition str_int :: "int \<Rightarrow> string" where
  "str_int i = (if i < 0 then CHR ''-'' # str_nat (nat (- i)) else str_nat (nat i))"

fun str_val :: "val \<Rightarrow> string" where
  "str_val (IntV i) = str_int i"
| "str_val (BoolV b) = (if b then ''True'' else ''False'')"

text \<open>
  The two marker glyphs, U+2713 and U+2717, as their UTF-8 bytes, and the line feed.
\<close>

definition check_mark :: string where
  "check_mark = [CHR 0xE2, CHR 0x9C, CHR 0x93]"

definition cross_mark :: string where
  "cross_mark = [CHR 0xE2, CHR 0x9C, CHR 0x97]"

definition newline :: string where
  "newline = [CHR 0x0A]"

subsection \<open>run_tests\<close>

text \<open>
  A test case is the triple (actual, expected, message). The runner keeps two counters
  and prints; the printed text is kept as the list of the arguments of the
  \<^verbatim>\<open>print\<close> calls, in order.
\<close>

type_synonym test_case = "val \<times> val \<times> string"

record runner =
  tests_passed :: int
  tests_failed :: int
  printed :: "string list"

definition pass_line :: "string \<Rightarrow> string" where
  "pass_line message = check_mark @ '' '' @ message"

definition fail_line :: "val \<Rightarrow> val \<Rightarrow> string \<Rightarrow> string" where
  "fail_line actual expected message =
     cross_mark @ '' '' @ message @ '' - Expected '' @ str_val expected @ '', got '' @ str_val actual"

text \<open>One iteration of \<^verbatim>\<open>for actual, expected, message in tests\<close>.\<close>

fun run_case :: "test_case \<Rightarrow> runner \<Rightarrow> runner" where
  "run_case (actual, expected, message) s =
     (if py_eq actual expected
      then s\<lparr>printed := printed s @ [pass_line message],
             tests_passed := tests_passed s + 1\<rparr>
      else s\<lparr>printed := printed s @ [fail_line actual expected message],
             tests_failed := tests_failed s + 1\<rparr>)"

text \<open>
  The loop over the table, and two notions to speak about it: whether a case passes, and
  the line the loop prints for it.
\<close>

primrec run_loop :: "test_case list \<Rightarrow> runner \<Rightarrow> runner" where
  "run_loop [] s = s"
| "run_loop (c # cs) s = run_loop cs (run_case c s)"

definition passes :: "test_case \<Rightarrow> bool" where
  "passes c = (case c of (actual, expected, message) \<Rightarrow> py_eq actual expected)"

definition case_line :: "test_case \<Rightarrow> string" where
  "case_line c =
     (case c of (actual, expected, message) \<Rightarrow>
        if py_eq actual expected then pass_line message
        else fail_line actual expected message)"

definition separator :: string where
  "separator = replicate 40 (CHR ''='')"

definition summary :: "runner \<Rightarrow> string list" where
  "summary s =
     [newline @ separator,
      ''Total: '' @ str_int (tests_passed s + tests_failed s) @ '' tests'',
      ''Passed: '' @ str_int (tests_passed s),
      ''Failed: '' @ str_int (tests_failed s),
      separator]"

definition start :: runner where
  "start = \<lparr>tests_passed = 0, tests_failed = 0,
            printed = [''Running Python tests...'' @ newline]\<rparr>"

text \<open>
  The body of \<^verbatim>\<open>run_tests\<close> with the table as a parameter: the counters start at 0,
  the banner is printed, the loop runs, the summary is printed, and the result is
  \<^verbatim>\<open>tests_failed == 0\<close>. The result is paired with everything printed.
\<close>

definition run_tests_on :: "test_case list \<Rightarrow> bool \<times> string list" where
  "run_tests_on tests =
     (let s = run_loop tests start
      in (tests_failed s = 0, printed s @ summary s))"

text \<open>
  The table of the source. Its first components are computed when the list is built, so
  an exception of \<^verbatim>\<open>is_prime\<close> would leave \<^verbatim>\<open>run_tests\<close> before the loop.
\<close>

definition prime_case :: "int \<Rightarrow> bool \<Rightarrow> string \<Rightarrow> error + test_case" where
  "prime_case n expected message =
     (case is_prime n of
        Inl e \<Rightarrow> Inl e
      | Inr b \<Rightarrow> Inr (BoolV b, BoolV expected, message))"

definition fib_case :: "int \<Rightarrow> int \<Rightarrow> string \<Rightarrow> error + test_case" where
  "fib_case n expected message = Inr (IntV (fibonacci n), IntV expected, message)"

primrec collect :: "(error + 'a) list \<Rightarrow> error + 'a list" where
  "collect [] = Inr []"
| "collect (x # xs) =
     (case x of
        Inl e \<Rightarrow> Inl e
      | Inr v \<Rightarrow> (case collect xs of Inl e \<Rightarrow> Inl e | Inr vs \<Rightarrow> Inr (v # vs)))"

definition tests_table :: "error + test_case list" where
  "tests_table = collect
     [fib_case 0 0 ''fibonacci(0) should be 0'',
      fib_case 1 1 ''fibonacci(1) should be 1'',
      fib_case 5 5 ''fibonacci(5) should be 5'',
      fib_case 7 13 ''fibonacci(7) should be 13'',
      prime_case 2 True ''is_prime(2) should be True'',
      prime_case 17 True ''is_prime(17) should be True'',
      prime_case 4 False ''is_prime(4) should be False'',
      prime_case 1 False ''is_prime(1) should be False'']"

definition run_tests :: "error + bool \<times> string list" where
  "run_tests =
     (case tests_table of
        Inl e \<Rightarrow> Inl e
      | Inr tests \<Rightarrow> Inr (run_tests_on tests))"

subsection \<open>The entry point\<close>

text \<open>
  \<^verbatim>\<open>sys.exit(0 if success else 1)\<close>: the exit status of the process. \<open>main_on\<close> is the
  entry point over a given table, \<open>main\<close> the script as it is; an exception that
  nothing catches is its \<open>Inl\<close>.
\<close>

definition exit_status :: "bool \<Rightarrow> int" where
  "exit_status success = (if success then 0 else 1)"

definition main_on :: "test_case list \<Rightarrow> int" where
  "main_on tests = (let (success, out) = run_tests_on tests in exit_status success)"

definition main :: "error + int" where
  "main =
     (case run_tests of
        Inl e \<Rightarrow> Inl e
      | Inr (success, out) \<Rightarrow> Inr (exit_status success))"

section \<open>Properties of fibonacci\<close>

lemma fibonacci_nonpos: "n \<le> 0 \<Longrightarrow> fibonacci n = 0"
  by (simp add: fibonacci.simps)

lemma fibonacci_one: "fibonacci 1 = 1"
  by (simp add: fibonacci.simps)

lemma fibonacci_rec: "2 \<le> n \<Longrightarrow> fibonacci n = fibonacci (n - 1) + fibonacci (n - 2)"
  by (subst fibonacci.simps) simp

lemma fibonacci_of_nat: "fibonacci (int k) = fib_ref k"
proof (induction k rule: fib_ref.induct)
  case 1
  show ?case by (simp add: fibonacci_nonpos)
next
  case 2
  show ?case by (simp add: fibonacci_one)
next
  case (3 k)
  have "fibonacci (int (Suc (Suc k))) =
        fibonacci (int (Suc (Suc k)) - 1) + fibonacci (int (Suc (Suc k)) - 2)"
    by (rule fibonacci_rec) simp
  also have "int (Suc (Suc k)) - 1 = int (Suc k)" by simp
  also have "int (Suc (Suc k)) - 2 = int k" by simp
  finally show ?case using 3 by simp
qed

lemma fibonacci_refines: "0 \<le> n \<Longrightarrow> fibonacci n = fib_ref (nat n)"
  using fibonacci_of_nat [of "nat n"] by simp

lemma fib_ref_pos: "0 < k \<Longrightarrow> 1 \<le> fib_ref k"
proof (induction k rule: fib_ref.induct)
  case 1
  then show ?case by simp
next
  case 2
  show ?case by simp
next
  case (3 k)
  have "0 \<le> fib_ref k"
  proof (cases k)
    case 0
    then show ?thesis by simp
  next
    case (Suc j)
    then show ?thesis using 3 by simp
  qed
  moreover have "1 \<le> fib_ref (Suc k)" using 3 by simp
  ultimately show ?case by simp
qed

lemma fibonacci_pos: "1 \<le> n \<Longrightarrow> 1 \<le> fibonacci n"
  using fib_ref_pos [of "nat n"] fibonacci_refines [of n] by simp

lemma fibonacci_depth_of_nat: "fibonacci_depth (int k) = max 1 k"
proof (induction k rule: fib_ref.induct)
  case 1
  show ?case by (simp add: fibonacci_depth.simps)
next
  case 2
  show ?case by (simp add: fibonacci_depth.simps)
next
  case (3 k)
  have "fibonacci_depth (int (Suc (Suc k))) =
        Suc (max (fibonacci_depth (int (Suc (Suc k)) - 1))
                 (fibonacci_depth (int (Suc (Suc k)) - 2)))"
    by (subst fibonacci_depth.simps) simp
  also have "int (Suc (Suc k)) - 1 = int (Suc k)" by simp
  also have "int (Suc (Suc k)) - 2 = int k" by simp
  finally show ?case using 3 by simp
qed

lemma fibonacci_depth_bound: "fibonacci_depth n = max 1 (nat n)"
proof (cases "0 \<le> n")
  case True
  then show ?thesis using fibonacci_depth_of_nat [of "nat n"] by simp
next
  case False
  then show ?thesis by (simp add: fibonacci_depth.simps)
qed

text \<open>
  Claim C1. For every integer \<open>n\<close> that is at least 0, \<^verbatim>\<open>fibonacci(n)\<close> is the
  \<open>n\<close>-th term of the reference sequence fib(0)=0, fib(1)=1,
  fib(k)=fib(k-1)+fib(k-2); in particular \<^verbatim>\<open>fibonacci(1)\<close> is 1, \<^verbatim>\<open>fibonacci(5)\<close> is 5,
  \<^verbatim>\<open>fibonacci(7)\<close> is 13 and \<^verbatim>\<open>fibonacci(10)\<close> is 55.
\<close>

theorem fibonacci_is_reference_sequence:
  "(\<forall>n. 0 \<le> n \<longrightarrow> fibonacci n = fib_ref (nat n)) \<and>
   fibonacci 1 = 1 \<and> fibonacci 5 = 5 \<and> fibonacci 7 = 13 \<and> fibonacci 10 = 55"
proof -
  have general: "\<forall>n. 0 \<le> n \<longrightarrow> fibonacci n = fib_ref (nat n)"
    by (simp add: fibonacci_refines)
  have "fibonacci 5 = fib_ref (nat 5)" by (rule fibonacci_refines) simp
  also have "fib_ref (nat 5) = 5" by code_simp
  finally have f5: "fibonacci 5 = 5" .
  have "fibonacci 7 = fib_ref (nat 7)" by (rule fibonacci_refines) simp
  also have "fib_ref (nat 7) = 13" by code_simp
  finally have f7: "fibonacci 7 = 13" .
  have "fibonacci 10 = fib_ref (nat 10)" by (rule fibonacci_refines) simp
  also have "fib_ref (nat 10) = 55" by code_simp
  finally have f10: "fibonacci 10 = 55" .
  show ?thesis using general fibonacci_one f5 f7 f10 by blast
qed

theorem fibonacci_is_reference_sequence_witness:
  "(0::int) \<le> 6 \<and> fibonacci 6 = fib_ref (nat 6) \<and> fibonacci 6 = 8"
proof -
  have "fibonacci 6 = fib_ref (nat 6)"
    using fibonacci_is_reference_sequence by simp
  moreover have "fib_ref (nat 6) = 8" by code_simp
  ultimately show ?thesis by simp
qed

text \<open>
  Claim C7. For every integer \<open>n\<close> that is at most 0, negative inputs included,
  \<^verbatim>\<open>fibonacci(n)\<close> returns 0.
\<close>

theorem fibonacci_nonpositive_is_zero: "n \<le> 0 \<Longrightarrow> fibonacci n = 0"
  by (subst fibonacci.simps) simp

theorem fibonacci_nonpositive_is_zero_witness: "(-3::int) \<le> 0 \<and> fibonacci (-3) = 0"
  using fibonacci_nonpositive_is_zero [of "-3"] by simp

text \<open>
  Claim C10. For every integer \<open>n\<close>, \<^verbatim>\<open>fibonacci(n)\<close> is 0 exactly when \<open>n\<close> is at
  most 0; equivalently, \<^verbatim>\<open>fibonacci(n)\<close> is at least 1 for every \<open>n\<close> that is at least 1.
\<close>

theorem fibonacci_zero_iff: "(fibonacci n = 0) = (n \<le> 0) \<and> (1 \<le> n \<longrightarrow> 1 \<le> fibonacci n)"
proof (cases "n \<le> 0")
  case True
  then show ?thesis by (simp add: fibonacci_nonpos)
next
  case False
  then have "1 \<le> fibonacci n" by (simp add: fibonacci_pos)
  then show ?thesis using False by simp
qed

theorem fibonacci_zero_iff_witness:
  "(1::int) \<le> 4 \<and> 1 \<le> fibonacci 4 \<and> fibonacci 4 \<noteq> 0 \<and> fibonacci 0 = 0"
proof -
  have "1 \<le> fibonacci 4" using fibonacci_zero_iff [of 4] by simp
  moreover have "fibonacci 0 = 0" using fibonacci_zero_iff [of 0] by simp
  ultimately show ?thesis by simp
qed

section \<open>Properties of is_prime\<close>

text \<open>
  The integer square root is the greatest \<open>r\<close> with \<open>r * r \<le> n\<close>, and it is below
  \<open>n\<close> from 2 on.
\<close>

lemma floor_sqrt_from_spec:
  "0 \<le> r \<Longrightarrow> r * r \<le> n \<Longrightarrow>
     r \<le> floor_sqrt_from r n \<and> floor_sqrt_from r n * floor_sqrt_from r n \<le> n \<and>
     n < (floor_sqrt_from r n + 1) * (floor_sqrt_from r n + 1)"
proof (induction r n rule: floor_sqrt_from.induct)
  case (1 r n)
  show ?case
  proof (cases "(r + 1) * (r + 1) \<le> n")
    case True
    then have step: "floor_sqrt_from r n = floor_sqrt_from (r + 1) n"
      using "1.prems" by (subst floor_sqrt_from.simps) simp
    have "r + 1 \<le> floor_sqrt_from (r + 1) n \<and>
          floor_sqrt_from (r + 1) n * floor_sqrt_from (r + 1) n \<le> n \<and>
          n < (floor_sqrt_from (r + 1) n + 1) * (floor_sqrt_from (r + 1) n + 1)"
      using "1.IH" True "1.prems" by simp
    then show ?thesis using step by simp
  next
    case False
    then have "floor_sqrt_from r n = r"
      by (subst floor_sqrt_from.simps) simp
    then show ?thesis using False "1.prems" by simp
  qed
qed

lemma floor_sqrt_spec:
  assumes "0 \<le> n"
  shows "0 \<le> floor_sqrt n" and "floor_sqrt n * floor_sqrt n \<le> n"
    and "n < (floor_sqrt n + 1) * (floor_sqrt n + 1)"
  using floor_sqrt_from_spec [of 0 n] assms by (simp_all add: floor_sqrt_def)

lemma floor_sqrt_greatest:
  assumes "0 \<le> m" and "m * m \<le> n"
  shows "m \<le> floor_sqrt n"
proof (rule ccontr)
  assume "\<not> m \<le> floor_sqrt n"
  then have lt: "floor_sqrt n + 1 \<le> m" by simp
  have n0: "0 \<le> n" using assms by (meson order_trans zero_le_square)
  have "0 \<le> floor_sqrt n + 1" using floor_sqrt_spec(1) [OF n0] by simp
  then have "(floor_sqrt n + 1) * (floor_sqrt n + 1) \<le> m * m"
    using lt by (simp add: mult_mono)
  then show False using floor_sqrt_spec(3) [OF n0] assms by simp
qed

lemma floor_sqrt_less:
  assumes "2 \<le> n"
  shows "floor_sqrt n < n"
proof (rule ccontr)
  assume "\<not> floor_sqrt n < n"
  then have ge: "n \<le> floor_sqrt n" by simp
  have "n * n \<le> floor_sqrt n * floor_sqrt n"
    using ge assms by (simp add: mult_mono)
  moreover have "floor_sqrt n * floor_sqrt n \<le> n"
    using floor_sqrt_spec(2) [of n] assms by simp
  moreover have "n < n * n" using assms by simp
  ultimately show False by simp
qed

text \<open>
  The loop returns \<^verbatim>\<open>True\<close> exactly when no \<open>i\<close> of its range divides \<open>n\<close>. For
  \<open>n\<close> at least 2 that decides primality for every bound \<open>r\<close> from the integer square
  root up to \<open>n - 1\<close>: a bound that rounding makes a little too large does no harm, a
  bound below the integer square root is not covered.
\<close>

lemma for_no_divisor_iff: "for_no_divisor n xs \<longleftrightarrow> (\<forall>i\<in>set xs. \<not> i dvd n)"
  by (induction xs) (auto simp add: dvd_eq_mod_eq_0)

lemma set_range_py: "set (range_py a b) = {a..b - 1}"
  by (simp add: range_py_def)

lemma trial_division_iff:
  "for_no_divisor n (range_py 2 (r + 1)) \<longleftrightarrow> (\<forall>i. 2 \<le> i \<and> i \<le> r \<longrightarrow> \<not> i dvd n)"
  by (auto simp add: for_no_divisor_iff set_range_py)

lemma small_factor:
  fixes n d :: int
  assumes n: "2 \<le> n" and d: "0 < d" "d dvd n" "d \<noteq> 1" "d \<noteq> n"
  shows "\<exists>i. 2 \<le> i \<and> i * i \<le> n \<and> i dvd n"
proof -
  obtain e where e: "n = d * e" using d(2) by (auto simp add: dvd_def)
  have "0 < d * e" using e n by simp
  then have epos: "0 < e" using d(1) by (rule zero_less_mult_pos)
  have d2: "2 \<le> d" using d by simp
  have "e \<noteq> 1" using e d(4) by auto
  then have e2: "2 \<le> e" using epos by simp
  show ?thesis
  proof (cases "d \<le> e")
    case True
    then have "d * d \<le> d * e" using d(1) by (simp add: mult_left_mono)
    then show ?thesis using d2 d(2) e by auto
  next
    case False
    then have "e * e \<le> d * e" using epos by (simp add: mult_right_mono)
    moreover have "e dvd n" using e by simp
    ultimately show ?thesis using e2 e by auto
  qed
qed

lemma prime_spec_iff_prime_int: "prime_spec n \<longleftrightarrow> prime_int n"
proof
  assume p: "prime_spec n"
  then have n: "2 \<le> n" by (simp add: prime_spec_def)
  show "prime_int n"
  proof (rule ccontr)
    assume "\<not> prime_int n"
    then obtain d where "0 < d" "d dvd n" "d \<noteq> 1" "d \<noteq> n"
      using n by (auto simp add: prime_int_def)
    then obtain i where "2 \<le> i \<and> i * i \<le> n \<and> i dvd n"
      using small_factor [OF n] by blast
    then show False using p by (auto simp add: prime_spec_def)
  qed
next
  assume p: "prime_int n"
  then have n: "2 \<le> n" by (simp add: prime_int_def)
  show "prime_spec n"
    unfolding prime_spec_def
  proof (intro conjI allI impI)
    show "2 \<le> n" by (rule n)
  next
    fix d assume d: "2 \<le> d \<and> d * d \<le> n"
    show "\<not> d dvd n"
    proof
      assume dv: "d dvd n"
      have "0 < d" using d by simp
      then have "d = 1 \<or> d = n" using p dv unfolding prime_int_def by blast
      then have "d = n" using d by simp
      then have "n * n \<le> n" using d by simp
      moreover have "n < n * n" using n by simp
      ultimately show False by simp
    qed
  qed
qed

lemma trial_division_correct:
  assumes n: "2 \<le> n" and lo: "floor_sqrt n \<le> r" and hi: "r < n"
  shows "for_no_divisor n (range_py 2 (r + 1)) \<longleftrightarrow> prime_int n"
proof
  assume loop: "for_no_divisor n (range_py 2 (r + 1))"
  show "prime_int n"
  proof (rule ccontr)
    assume "\<not> prime_int n"
    then obtain d where "0 < d" "d dvd n" "d \<noteq> 1" "d \<noteq> n"
      using n by (auto simp add: prime_int_def)
    then obtain i where i: "2 \<le> i \<and> i * i \<le> n \<and> i dvd n"
      using small_factor [OF n] by blast
    then have "i \<le> floor_sqrt n" by (simp add: floor_sqrt_greatest)
    then have "i \<le> r" using lo by simp
    then show False using loop i unfolding trial_division_iff by blast
  qed
next
  assume p: "prime_int n"
  show "for_no_divisor n (range_py 2 (r + 1))"
    unfolding trial_division_iff
  proof (intro allI impI)
    fix i assume i: "2 \<le> i \<and> i \<le> r"
    show "\<not> i dvd n"
    proof
      assume "i dvd n"
      moreover have "0 < i" using i by simp
      ultimately have "i = 1 \<or> i = n" using p unfolding prime_int_def by blast
      then show False using i hi by simp
    qed
  qed
qed

text \<open>
  With the square root at its mathematical value, \<open>is_prime\<close> decides primality below
  the overflow bound of the conversion to a double, and raises from that bound on.
\<close>

lemma is_prime_below_two: "n < 2 \<Longrightarrow> is_prime n = Inr False"
  by (simp add: is_prime_def)

lemma float_overflow_bound_ge: "2 \<le> float_overflow_bound"
  by (simp add: float_overflow_bound_def)

lemma is_prime_in_float_range:
  assumes "n < float_overflow_bound"
  shows "is_prime n = Inr (prime_int n)"
proof (cases "n < 2")
  case True
  then show ?thesis by (simp add: is_prime_def prime_int_def)
next
  case False
  then have n: "2 \<le> n" by simp
  have "for_no_divisor n (range_py 2 (floor_sqrt n + 1)) \<longleftrightarrow> prime_int n"
    using n floor_sqrt_less [OF n] by (intro trial_division_correct) simp_all
  then show ?thesis using False assms by (simp add: is_prime_def int_pow_half_def)
qed

lemma is_prime_overflow:
  assumes "float_overflow_bound \<le> n"
  shows "is_prime n = Inl OverflowError"
proof -
  have "\<not> n < 2" using assms float_overflow_bound_ge by simp
  then show ?thesis using assms by (simp add: is_prime_def int_pow_half_def)
qed

text \<open>
  Claim C2. For every integer \<open>n\<close>, \<^verbatim>\<open>is_prime(n)\<close> returns true exactly when \<open>n\<close> is
  a prime number; it is false below 2, true at 2 and 17, false at 4 and 9. The code
  does not return at \<open>2^1024\<close>, an even number: the conversion of \<open>n\<close> to a double in
  \<^verbatim>\<open>n**0.5\<close> raises \<^verbatim>\<open>OverflowError\<close> before the loop starts.
\<close>

theorem is_prime_raises_at_two_to_1024:
  "is_prime (2 ^ 1024) = Inl OverflowError \<and> is_prime (2 ^ 1024) \<noteq> Inr False \<and>
   (2::int) dvd 2 ^ 1024"
  by (simp add: is_prime_def int_pow_half_def float_overflow_bound_def)

text \<open>
  Claim C8. \<^verbatim>\<open>fibonacci\<close> and \<^verbatim>\<open>is_prime\<close> are total over all integers, with no error
  condition, and the recursion of \<^verbatim>\<open>fibonacci\<close> is well-founded. For \<^verbatim>\<open>fibonacci\<close>
  this is its termination proof, with the depth given by \<open>fibonacci_depth_bound\<close>;
  \<^verbatim>\<open>is_prime\<close> has an error condition, met at \<open>10^400\<close>, where it raises
  \<^verbatim>\<open>OverflowError\<close> and returns no boolean.
\<close>

theorem is_prime_not_total:
  "is_prime (10 ^ 400) = Inl OverflowError \<and> (\<forall>b. is_prime (10 ^ 400) \<noteq> Inr b)"
  by (simp add: is_prime_def int_pow_half_def float_overflow_bound_def)

section \<open>Properties of the test runner\<close>

text \<open>
  The loop adds to the passed counter the number of cases that pass, to the failed
  counter the number of the others, and prints one line for each case, in order.
\<close>

lemma run_case_passed:
  "tests_passed (run_case c s) = tests_passed s + (if passes c then 1 else 0)"
  by (cases c) (simp add: passes_def)

lemma run_case_failed:
  "tests_failed (run_case c s) = tests_failed s + (if passes c then 0 else 1)"
  by (cases c) (simp add: passes_def)

lemma run_case_printed: "printed (run_case c s) = printed s @ [case_line c]"
  by (cases c) (simp add: case_line_def)

lemma run_loop_passed:
  "tests_passed (run_loop cs s) = tests_passed s + int (length (filter passes cs))"
  by (induction cs arbitrary: s) (simp_all add: run_case_passed)

lemma run_loop_failed:
  "tests_failed (run_loop cs s) = tests_failed s + int (length (filter (\<lambda>c. \<not> passes c) cs))"
  by (induction cs arbitrary: s) (simp_all add: run_case_failed)

lemma run_loop_printed: "printed (run_loop cs s) = printed s @ map case_line cs"
  by (induction cs arbitrary: s) (simp_all add: run_case_printed)

lemma filter_split_length:
  "length (filter P xs) + length (filter (\<lambda>c. \<not> P c) xs) = length xs"
  by (induction xs) simp_all

lemma start_counters: "tests_passed start = 0" "tests_failed start = 0"
  by (simp_all add: start_def)

lemma failed_zero_iff:
  "tests_failed (run_loop tests start) = 0 \<longleftrightarrow> (\<forall>c\<in>set tests. passes c)"
  by (simp add: run_loop_failed start_counters filter_empty_conv)

lemma corrupted_counts:
  assumes all: "\<forall>c\<in>set xs. P c" and i: "i < length xs" and c: "\<not> P c'"
  shows "length (filter P (xs[i := c'])) = length xs - 1"
    and "length (filter (\<lambda>c. \<not> P c) (xs[i := c'])) = 1"
proof -
  have split: "xs[i := c'] = take i xs @ c' # drop (Suc i) xs"
    using i by (rule upd_conv_take_nth_drop)
  have t: "\<forall>x\<in>set (take i xs). P x" using all by (auto dest: in_set_takeD)
  have d: "\<forall>x\<in>set (drop (Suc i) xs). P x" using all by (auto dest: in_set_dropD)
  have ft: "filter P (take i xs) = take i xs" using t by simp
  have fd: "filter P (drop (Suc i) xs) = drop (Suc i) xs" using d by simp
  have nt: "filter (\<lambda>c. \<not> P c) (take i xs) = []" using t by simp
  have nd: "filter (\<lambda>c. \<not> P c) (drop (Suc i) xs) = []" using d by simp
  show "length (filter P (xs[i := c'])) = length xs - 1"
    using i c by (simp add: split ft fd)
  show "length (filter (\<lambda>c. \<not> P c) (xs[i := c'])) = 1"
    using c by (simp add: split nt nd)
qed

lemma fibonacci_values:
  "fibonacci 0 = 0" "fibonacci 1 = 1" "fibonacci 5 = 5" "fibonacci 7 = 13"
  by code_simp+

lemma is_prime_values:
  "is_prime 2 = Inr True" "is_prime 17 = Inr True" "is_prime 4 = Inr False"
  "is_prime 1 = Inr False" "is_prime 9 = Inr False"
  by code_simp+

lemma tests_table_value:
  "tests_table = Inr
     [(IntV 0, IntV 0, ''fibonacci(0) should be 0''),
      (IntV 1, IntV 1, ''fibonacci(1) should be 1''),
      (IntV 5, IntV 5, ''fibonacci(5) should be 5''),
      (IntV 13, IntV 13, ''fibonacci(7) should be 13''),
      (BoolV True, BoolV True, ''is_prime(2) should be True''),
      (BoolV True, BoolV True, ''is_prime(17) should be True''),
      (BoolV False, BoolV False, ''is_prime(4) should be False''),
      (BoolV False, BoolV False, ''is_prime(1) should be False'')]"
  by (simp add: tests_table_def fib_case_def prime_case_def fibonacci_values is_prime_values)

lemma str_int_values: "str_int 0 = ''0''" "str_int 1 = ''1''" "str_int 7 = ''7''" "str_int 8 = ''8''"
  by code_simp+

lemma fixed_table_passes:
  assumes "tests_table = Inr tests"
  shows "\<forall>c\<in>set tests. passes c" and "length tests = 8"
  using assms unfolding tests_table_value by (auto simp add: passes_def py_eq_def)

lemma main_is_main_on:
  assumes "tests_table = Inr tests"
  shows "main = Inr (main_on tests)"
  unfolding main_def run_tests_def main_on_def assms by (simp add: split_beta)

text \<open>
  Claim C3. For every test table, \<^verbatim>\<open>run_tests\<close> returns true exactly when the failed
  count is 0 after all cases have been processed; equivalently, it returns false exactly
  when at least one case has an actual value different from its expected value.
\<close>

theorem run_tests_result_iff_no_failure:
  "fst (run_tests_on tests) = (tests_failed (run_loop tests start) = 0) \<and>
   (\<not> fst (run_tests_on tests)) = (\<exists>(actual, expected, message)\<in>set tests. \<not> py_eq actual expected)"
proof -
  have a: "fst (run_tests_on tests) = (tests_failed (run_loop tests start) = 0)"
    by (simp add: run_tests_on_def Let_def)
  have "(\<exists>c\<in>set tests. \<not> passes c) =
        (\<exists>(actual, expected, message)\<in>set tests. \<not> py_eq actual expected)"
    by (simp add: passes_def case_prod_beta)
  then have b: "(\<not> fst (run_tests_on tests)) =
        (\<exists>(actual, expected, message)\<in>set tests. \<not> py_eq actual expected)"
    using a failed_zero_iff [of tests] by simp
  show ?thesis using a b by (rule conjI)
qed

theorem run_tests_result_iff_no_failure_witness:
  "fst (run_tests_on [(IntV 5, IntV 5, ''a''), (BoolV True, BoolV False, ''b'')]) = False \<and>
   tests_failed (run_loop [(IntV 5, IntV 5, ''a''), (BoolV True, BoolV False, ''b'')] start) = 1 \<and>
   fst (run_tests_on [(IntV 5, IntV 5, ''a'')]) = True"
proof -
  have "\<not> fst (run_tests_on [(IntV 5, IntV 5, ''a''), (BoolV True, BoolV False, ''b'')])"
    using run_tests_result_iff_no_failure
      [of "[(IntV 5, IntV 5, ''a''), (BoolV True, BoolV False, ''b'')]"]
    by (simp add: py_eq_def start_def)
  moreover have "fst (run_tests_on [(IntV 5, IntV 5, ''a'')])"
    using run_tests_result_iff_no_failure [of "[(IntV 5, IntV 5, ''a'')]"]
    by (simp add: py_eq_def start_def)
  moreover have
    "tests_failed (run_loop [(IntV 5, IntV 5, ''a''), (BoolV True, BoolV False, ''b'')] start) = 1"
    by (simp add: py_eq_def start_def)
  ultimately show ?thesis by simp
qed

text \<open>
  Claim C4. For every test table, \<^verbatim>\<open>run_tests\<close> evaluates every case, a mismatch never
  ending the run: one line is printed for each case, in order. After the loop the passed
  and the failed count add up to the number of cases, both are at least 0, and the total
  the summary prints is that sum.
\<close>

theorem run_tests_counts_every_case:
  "tests_passed (run_loop tests start) + tests_failed (run_loop tests start) = int (length tests) \<and>
   0 \<le> tests_passed (run_loop tests start) \<and>
   0 \<le> tests_failed (run_loop tests start) \<and>
   printed (run_loop tests start) = printed start @ map case_line tests \<and>
   snd (run_tests_on tests) =
     (''Running Python tests...'' @ newline) # map case_line tests @
     [newline @ separator,
      ''Total: '' @ str_int (int (length tests)) @ '' tests'',
      ''Passed: '' @ str_int (tests_passed (run_loop tests start)),
      ''Failed: '' @ str_int (tests_failed (run_loop tests start)),
      separator]"
proof -
  have total: "tests_passed (run_loop tests start) + tests_failed (run_loop tests start)
      = int (length tests)"
    using filter_split_length [of passes tests]
    by (simp add: run_loop_passed run_loop_failed start_counters)
  have p: "0 \<le> tests_passed (run_loop tests start)"
    by (simp add: run_loop_passed start_counters)
  have f: "0 \<le> tests_failed (run_loop tests start)"
    by (simp add: run_loop_failed start_counters)
  have lines: "printed (run_loop tests start) = printed start @ map case_line tests"
    by (rule run_loop_printed)
  have out: "snd (run_tests_on tests) =
     (''Running Python tests...'' @ newline) # map case_line tests @
     [newline @ separator,
      ''Total: '' @ str_int (int (length tests)) @ '' tests'',
      ''Passed: '' @ str_int (tests_passed (run_loop tests start)),
      ''Failed: '' @ str_int (tests_failed (run_loop tests start)),
      separator]"
    unfolding run_tests_on_def Let_def summary_def total lines
    by (simp add: start_def)
  show ?thesis using total p f lines out by blast
qed

text \<open>
  Claim C5. On the table of the source (\<^verbatim>\<open>fibonacci\<close> at 0, 1, 5 and 7, \<^verbatim>\<open>is_prime\<close>
  at 2, 17, 4 and 1) \<^verbatim>\<open>run_tests\<close> prints a total of 8 tests, 8 passed and 0 failed, and
  returns true, and the process exits with status 0.
\<close>

theorem fixed_table_all_pass:
  "run_tests = Inr (True,
     [''Running Python tests...'' @ newline,
      check_mark @ '' fibonacci(0) should be 0'',
      check_mark @ '' fibonacci(1) should be 1'',
      check_mark @ '' fibonacci(5) should be 5'',
      check_mark @ '' fibonacci(7) should be 13'',
      check_mark @ '' is_prime(2) should be True'',
      check_mark @ '' is_prime(17) should be True'',
      check_mark @ '' is_prime(4) should be False'',
      check_mark @ '' is_prime(1) should be False'',
      newline @ separator,
      ''Total: 8 tests'',
      ''Passed: 8'',
      ''Failed: 0'',
      separator]) \<and>
   main = Inr 0"
proof -
  have r: "run_tests = Inr (True,
     [''Running Python tests...'' @ newline,
      check_mark @ '' fibonacci(0) should be 0'',
      check_mark @ '' fibonacci(1) should be 1'',
      check_mark @ '' fibonacci(5) should be 5'',
      check_mark @ '' fibonacci(7) should be 13'',
      check_mark @ '' is_prime(2) should be True'',
      check_mark @ '' is_prime(17) should be True'',
      check_mark @ '' is_prime(4) should be False'',
      check_mark @ '' is_prime(1) should be False'',
      newline @ separator,
      ''Total: 8 tests'',
      ''Passed: 8'',
      ''Failed: 0'',
      separator])"
    by (simp add: run_tests_def tests_table_value run_tests_on_def start_def summary_def
        py_eq_def pass_line_def str_int_values Let_def)
  have "main = Inr 0"
    unfolding main_def r by (simp add: exit_status_def)
  then show ?thesis using r by simp
qed

text \<open>
  Claim C6. When the expected value of exactly one case of that table is replaced by a
  value different from the actual one, the run prints 7 passed and 1 failed,
  \<^verbatim>\<open>run_tests\<close> returns false, and the process exits with the non-zero status 1.
\<close>

theorem single_corruption_fails_once:
  assumes table: "tests_table = Inr tests"
    and i: "i < length tests"
    and row: "tests ! i = (actual, expected, message)"
    and bad: "\<not> py_eq actual corrupted"
  shows "run_tests_on (tests[i := (actual, corrupted, message)]) =
      (False,
       (''Running Python tests...'' @ newline) #
       map case_line (tests[i := (actual, corrupted, message)]) @
       [newline @ separator, ''Total: 8 tests'', ''Passed: 7'', ''Failed: 1'', separator]) \<and>
     case_line (tests[i := (actual, corrupted, message)] ! i) =
       fail_line actual corrupted message \<and>
     main_on (tests[i := (actual, corrupted, message)]) = 1"
proof -
  let ?T = "tests[i := (actual, corrupted, message)]"
  have all: "\<forall>c\<in>set tests. passes c" and len: "length tests = 8"
    using fixed_table_passes [OF table] by simp_all
  have notp: "\<not> passes (actual, corrupted, message)"
    using bad by (simp add: passes_def)
  have np: "length (filter passes ?T) = 7"
    using corrupted_counts(1) [OF all i notp] len by simp
  have nf: "length (filter (\<lambda>c. \<not> passes c) ?T) = 1"
    using corrupted_counts(2) [OF all i notp] by simp
  have p: "tests_passed (run_loop ?T start) = 7"
    by (simp add: run_loop_passed start_counters np)
  have f: "tests_failed (run_loop ?T start) = 1"
    by (simp add: run_loop_failed start_counters nf)
  have lines: "printed (run_loop ?T start) = printed start @ map case_line ?T"
    by (rule run_loop_printed)
  have res: "run_tests_on ?T =
      (False,
       (''Running Python tests...'' @ newline) # map case_line ?T @
       [newline @ separator, ''Total: 8 tests'', ''Passed: 7'', ''Failed: 1'', separator])"
    unfolding run_tests_on_def Let_def summary_def p f lines
    by (simp add: start_def str_int_values)
  have line: "case_line (?T ! i) = fail_line actual corrupted message"
    using i bad by (simp add: case_line_def)
  have exit: "main_on ?T = 1"
    unfolding main_on_def res by (simp add: exit_status_def)
  show ?thesis using res line exit by blast
qed

theorem single_corruption_fails_once_witness:
  "\<not> py_eq (IntV 5) (IntV 6) \<and>
   run_tests_on
     [(IntV 0, IntV 0, ''fibonacci(0) should be 0''),
      (IntV 1, IntV 1, ''fibonacci(1) should be 1''),
      (IntV 5, IntV 6, ''fibonacci(5) should be 5''),
      (IntV 13, IntV 13, ''fibonacci(7) should be 13''),
      (BoolV True, BoolV True, ''is_prime(2) should be True''),
      (BoolV True, BoolV True, ''is_prime(17) should be True''),
      (BoolV False, BoolV False, ''is_prime(4) should be False''),
      (BoolV False, BoolV False, ''is_prime(1) should be False'')] =
     (False,
      [''Running Python tests...'' @ newline,
       check_mark @ '' fibonacci(0) should be 0'',
       check_mark @ '' fibonacci(1) should be 1'',
       cross_mark @ '' fibonacci(5) should be 5 - Expected 6, got 5'',
       check_mark @ '' fibonacci(7) should be 13'',
       check_mark @ '' is_prime(2) should be True'',
       check_mark @ '' is_prime(17) should be True'',
       check_mark @ '' is_prime(4) should be False'',
       check_mark @ '' is_prime(1) should be False'',
       newline @ separator,
       ''Total: 8 tests'',
       ''Passed: 7'',
       ''Failed: 1'',
       separator])"
proof -
  have bad: "\<not> py_eq (IntV 5) (IntV 6)" by (simp add: py_eq_def)
  have five: "str_int 5 = ''5''" and six: "str_int 6 = ''6''" by code_simp+
  show ?thesis
    using single_corruption_fails_once
      [OF tests_table_value, of 2 "IntV 5" "IntV 5" "''fibonacci(5) should be 5''" "IntV 6"]
    by (simp add: py_eq_def case_line_def pass_line_def fail_line_def five six)
qed

text \<open>
  Claim C9. The entry point exits with status 0 when \<^verbatim>\<open>run_tests\<close> returns true and
  with status 1 when it returns false.
\<close>

theorem entry_point_exit_status:
  "(fst (run_tests_on tests) \<longrightarrow> main_on tests = 0) \<and>
   (\<not> fst (run_tests_on tests) \<longrightarrow> main_on tests = 1)"
  by (simp add: main_on_def exit_status_def split_beta)

theorem entry_point_exit_status_witness:
  "fst (run_tests_on [(IntV 5, IntV 5, ''a'')]) \<and> main_on [(IntV 5, IntV 5, ''a'')] = 0 \<and>
   \<not> fst (run_tests_on [(IntV 5, IntV 6, ''a'')]) \<and> main_on [(IntV 5, IntV 6, ''a'')] = 1"
proof -
  have t: "fst (run_tests_on [(IntV 5, IntV 5, ''a'')])"
    by (simp add: run_tests_on_def py_eq_def start_def)
  have f: "\<not> fst (run_tests_on [(IntV 5, IntV 6, ''a'')])"
    by (simp add: run_tests_on_def py_eq_def start_def)
  have "main_on [(IntV 5, IntV 5, ''a'')] = 0"
    using entry_point_exit_status [of "[(IntV 5, IntV 5, ''a'')]"] t by blast
  moreover have "main_on [(IntV 5, IntV 6, ''a'')] = 1"
    using entry_point_exit_status [of "[(IntV 5, IntV 6, ''a'')]"] f by blast
  ultimately show ?thesis using t f by simp
qed

end
